theory Spec2Isabelle
  imports Complex_Main "HOL-Library.Word" "HOL-Library.AList"
begin

section \<open>JavaScript values\<close>

text \<open>
  A JavaScript string is a sequence of UTF-16 code units, and \<open>.length\<close> counts them.
  String constants of the source are written through \<open>ascii\<close>.
\<close>

type_synonym jsstring = "16 word list"

definition ascii :: "string \<Rightarrow> jsstring" where
  "ascii s = map (\<lambda>c. of_nat (of_char c)) s"

text \<open>
  A JavaScript number is NaN, an infinity or a finite value. Finite values are kept as exact
  rationals: every finite double is one, and the handlers below only compare numbers, test
  them for integrality and do arithmetic on task counts and page numbers, far below the
  magnitudes where a double rounds. There is no negative zero (it prints as 0 in JSON).
\<close>

datatype jsnum = NaN | NegInf | Fin rat | PosInf

fun js_lt :: "jsnum \<Rightarrow> jsnum \<Rightarrow> bool" where
  "js_lt NaN b = False"
| "js_lt a NaN = False"
| "js_lt (Fin a) (Fin b) = (a < b)"
| "js_lt a NegInf = False"
| "js_lt NegInf b = True"
| "js_lt PosInf b = False"
| "js_lt (Fin a) PosInf = True"

text \<open>\<open>a > b\<close> and \<open>a >= b\<close>: false as soon as an operand is NaN.\<close>

definition js_gt :: "jsnum \<Rightarrow> jsnum \<Rightarrow> bool" where
  "js_gt a b = js_lt b a"

definition js_ge :: "jsnum \<Rightarrow> jsnum \<Rightarrow> bool" where
  "js_ge a b = (a \<noteq> NaN \<and> b \<noteq> NaN \<and> \<not> js_lt a b)"

text \<open>\<open>Number.isInteger\<close>.\<close>

fun isInteger :: "jsnum \<Rightarrow> bool" where
  "isInteger (Fin r) = (of_int \<lfloor>r\<rfloor> = r)"
| "isInteger n = False"

text \<open>
  The value of a request body after \<open>express.json()\<close>. \<open>JUndefined\<close> is what reading a
  missing property gives. An object is the list of its own properties.
\<close>

datatype jsval =
    JUndefined
  | JNull
  | JBool bool
  | JNum jsnum
  | JStr jsstring
  | JArr "jsval list"
  | JObj "(jsstring \<times> jsval) list"

definition get_prop :: "(jsstring \<times> jsval) list \<Rightarrow> jsstring \<Rightarrow> jsval" where
  "get_prop fs k = (case map_of fs k of None \<Rightarrow> JUndefined | Some v \<Rightarrow> v)"

section \<open>types.ts: the request schema and the task record\<close>

text \<open>
  zod reports a failed parse as a list of issues; an issue is kept as its code and the path
  of the property it is about.
\<close>

datatype issue_code = invalid_type | too_small | too_big

record ZodIssue =
  code :: issue_code
  path :: "jsstring list"

text \<open>
  \<open>z.string().min(1).max(1000)\<close>: a value that is not a string is one \<open>invalid_type\<close> issue;
  on a string every check runs and adds its own issue.
\<close>

definition query_schema :: "jsval \<Rightarrow> issue_code list + jsstring" where
  "query_schema v =
     (case v of
        JStr s \<Rightarrow>
          (let issues = (if length s < 1 then [too_small] else []) @
                        (if length s > 1000 then [too_big] else [])
           in if issues = [] then Inr s else Inl issues)
      | _ \<Rightarrow> Inl [invalid_type])"

text \<open>
  \<open>z.number().int().min(1).max(5)\<close>: a value that is not a number, or is NaN, is one
  \<open>invalid_type\<close> issue; on a number the three checks run in the order they were chained
  (\<open>int\<close> reports \<open>invalid_type\<close>).
\<close>

definition int_1_5_schema :: "jsval \<Rightarrow> issue_code list + jsnum" where
  "int_1_5_schema v =
     (case v of
        JNum n \<Rightarrow>
          if n = NaN then Inl [invalid_type]
          else
            (let issues = (if \<not> isInteger n then [invalid_type] else []) @
                          (if js_lt n (Fin 1) then [too_small] else []) @
                          (if js_gt n (Fin 5) then [too_big] else [])
             in if issues = [] then Inr n else Inl issues)
      | _ \<Rightarrow> Inl [invalid_type])"

text \<open>
  \<open>.optional().default(3)\<close>: the default wrapper is outermost and replaces \<open>undefined\<close> by 3
  before the optional wrapper sees the value, so every value reaches the number schema.
\<close>

definition level_schema :: "jsval \<Rightarrow> issue_code list + jsnum" where
  "level_schema v = int_1_5_schema (if v = JUndefined then JNum (Fin 3) else v)"

record ResearchRequest =
  rq_query :: jsstring
  rq_depth :: jsnum
  rq_breadth :: jsnum

definition issues_at :: "jsstring \<Rightarrow> issue_code list + 'a \<Rightarrow> ZodIssue list" where
  "issues_at k r =
     (case r of Inl cs \<Rightarrow> map (\<lambda>c. \<lparr>code = c, path = [k]\<rparr>) cs | Inr _ \<Rightarrow> [])"

text \<open>
  \<open>ResearchRequestSchema.safeParse\<close>: \<open>z.object\<close> wants an object (not an array, not null),
  parses the three properties in the order of the shape and collects the issues of all of
  them; unknown properties are dropped. \<open>Inl\<close> is \<open>{success: false, error}\<close> with the issues,
  \<open>Inr\<close> is \<open>{success: true, data}\<close>.
\<close>

definition safeParse :: "jsval \<Rightarrow> ZodIssue list + ResearchRequest" where
  "safeParse body =
     (case body of
        JObj fs \<Rightarrow>
          (let q = query_schema (get_prop fs (ascii ''query''));
               d = level_schema (get_prop fs (ascii ''depth''));
               b = level_schema (get_prop fs (ascii ''breadth''))
           in case (q, d, b) of
                (Inr q', Inr d', Inr b') \<Rightarrow>
                  Inr \<lparr>rq_query = q', rq_depth = d', rq_breadth = b'\<rparr>
              | _ \<Rightarrow>
                  Inl (issues_at (ascii ''query'') q @ issues_at (ascii ''depth'') d @
                       issues_at (ascii ''breadth'') b))
      | _ \<Rightarrow> Inl [\<lparr>code = invalid_type, path = []\<rparr>])"

datatype task_status = running | completed | failed

text \<open>
  \<open>ResearchTask\<close>. The classes \<open>ProgressManager\<close> and \<open>OutputManager\<close> are type parameters;
  an optional field is an option; a \<open>Date\<close> is its time in milliseconds.
\<close>

record ('pm, 'om) ResearchTask =
  task_id :: jsstring
  query :: jsstring
  depth :: jsnum
  breadth :: jsnum
  status :: task_status
  error :: "jsstring option"
  startTime :: int
  endTime :: "int option"
  results :: "jsstring list option"
  progress :: "'pm option"
  output_om :: "'om option"

text \<open>\<open>ResearchProgress\<close>, the argument of the progress callback.\<close>

record ResearchProgress =
  currentDepth :: jsnum
  totalDepth :: jsnum
  currentBreadth :: jsnum
  totalBreadth :: jsnum
  currentQuery :: "jsstring option"
  totalQueries :: jsnum
  completedQueries :: jsnum

text \<open>
  What the promise of \<open>deepResearch\<close> resolves with (\<open>ResearchResult\<close>): the learnings and
  the sources of the run.
\<close>

record ResearchResult =
  learnings :: "jsstring list"
  sources :: "jsstring list"

section \<open>server.ts: the task store and POST /research\<close>

text \<open>
  \<open>maxConcurrentTasks\<close> (line 12): 5 when the environment variable is unset or empty, else
  what \<open>parseInt\<close> makes of it (NaN for a text that starts with no digit). \<open>parseInt\<close> is the
  builtin, a parameter here.
\<close>

definition maxConcurrentTasks :: "(jsstring \<Rightarrow> jsnum) \<Rightarrow> jsstring option \<Rightarrow> jsnum" where
  "maxConcurrentTasks parseInt env =
     (case env of None \<Rightarrow> Fin 5 | Some s \<Rightarrow> if s = [] then Fin 5 else parseInt s)"

text \<open>
  \<open>tasks\<close> is a \<open>Map\<close>: its entries in insertion order. \<open>tasks.get(k)\<close> is \<open>map_of tasks k\<close>,
  \<open>tasks.set(k, v)\<close> is \<open>AList.update k v tasks\<close> (a key that is already there keeps its
  place), \<open>tasks.values()\<close> is \<open>map snd tasks\<close>. A task object is reachable through the map
  only, so assigning to a field of \<open>tasks.get(k)\<close> is an update of the entry.
\<close>

type_synonym ('pm, 'om) task_map = "(jsstring \<times> ('pm, 'om) ResearchTask) list"

definition runningTasks :: "('pm, 'om) task_map \<Rightarrow> nat" where
  "runningTasks tasks = length (filter (\<lambda>t. status t = running) (map snd tasks))"

text \<open>
  What the handler reads from its environment: the text of \<open>Date.now()\<close> and of
  \<open>Math.random().toString(36).slice(2)\<close> in the task id, and the time of \<open>new Date()\<close>.
\<close>

record post_env =
  now_text :: jsstring
  random_text :: jsstring
  start_date :: int

text \<open>The call of \<open>deepResearch\<close>; its three callbacks are bound to \<open>call_taskId\<close>.\<close>

record research_call =
  call_taskId :: jsstring
  call_query :: jsstring
  call_depth :: jsnum
  call_breadth :: jsnum

record pagination =
  page :: jsnum
  limit :: jsnum
  total' :: nat
  pages :: jsnum

datatype ('pm, 'om) response_body =
    InvalidRequest "ZodIssue list"
  | TooManyTasks jsnum
  | Started jsstring task_status jsstring jsnum jsnum
  | TaskNotFound
  | TaskStatus "('pm, 'om) ResearchTask"
  | TaskList "('pm, 'om) ResearchTask list" pagination
  | ListFailed "jsstring option"

record ('pm, 'om) response =
  statusCode :: nat
  body :: "('pm, 'om) response_body"

text \<open>
  \<open>app.post('/research')\<close> (lines 46 to 124): the response, the task map afterwards and the
  call of \<open>deepResearch\<close> when one is made. The constructors of \<open>ProgressManager\<close> and
  \<open>OutputManager\<close> and the call of \<open>deepResearch\<close> itself return normally (it is an async
  function: its failures are rejections of the promise), so the \<open>catch\<close> of line 117 is not
  reached.
\<close>

definition post_research ::
  "jsnum \<Rightarrow> post_env \<Rightarrow> jsval \<Rightarrow> ('pm, 'om) task_map \<Rightarrow>
     ('pm, 'om) response \<times> ('pm, 'om) task_map \<times> research_call option" where
  "post_research maxConcurrent env req_body tasks =
     (case safeParse req_body of
        Inl issues \<Rightarrow> (\<lparr>statusCode = 400, body = InvalidRequest issues\<rparr>, tasks, None)
      | Inr data \<Rightarrow>
          if js_ge (Fin (of_nat (runningTasks tasks))) maxConcurrent
          then (\<lparr>statusCode = 429, body = TooManyTasks maxConcurrent\<rparr>, tasks, None)
          else
            (let taskId = ascii ''task-'' @ now_text env @ ascii ''-'' @ random_text env;
                 task = \<lparr>task_id = taskId, query = rq_query data, depth = rq_depth data,
                         breadth = rq_breadth data, status = running, error = None,
                         startTime = start_date env, endTime = None, results = None,
                         progress = None, output_om = None\<rparr>
             in (\<lparr>statusCode = 200,
                  body = Started taskId running (rq_query data) (rq_depth data) (rq_breadth data)\<rparr>,
                 AList.update taskId task tasks,
                 Some \<lparr>call_taskId = taskId, call_query = rq_query data,
                       call_depth = rq_depth data, call_breadth = rq_breadth data\<rparr>)))"

text \<open>
  The \<open>onProgress\<close> callback (lines 88 to 93). \<open>update\<close> is \<open>ProgressManager.update\<close>, which
  changes the manager in place.
\<close>

definition onProgress ::
  "('pm \<Rightarrow> ResearchProgress \<Rightarrow> 'pm) \<Rightarrow> jsstring \<Rightarrow> ResearchProgress \<Rightarrow>
     ('pm, 'om) task_map \<Rightarrow> ('pm, 'om) task_map" where
  "onProgress update taskId p tasks =
     (case map_of tasks taskId of
        None \<Rightarrow> tasks
      | Some task \<Rightarrow>
          (case progress task of
             None \<Rightarrow> tasks
           | Some pm \<Rightarrow> AList.update taskId (task\<lparr>progress := Some (update pm p)\<rparr>) tasks))"

text \<open>The \<open>then\<close> callback (lines 94 to 100), run at time \<open>now\<close>.\<close>

definition onResolved ::
  "jsstring \<Rightarrow> int \<Rightarrow> ResearchResult \<Rightarrow> ('pm, 'om) task_map \<Rightarrow> ('pm, 'om) task_map" where
  "onResolved taskId now result tasks =
     (case map_of tasks taskId of
        None \<Rightarrow> tasks
      | Some task \<Rightarrow>
          AList.update taskId
            (task\<lparr>status := completed, endTime := Some now, results := Some (learnings result)\<rparr>)
            tasks)"

text \<open>
  A rejection's reason: an \<open>Error\<close> with its message, or any other value with the text
  \<open>String\<close> gives for it.
\<close>

datatype thrown = ErrorObject jsstring | OtherValue jsstring

fun error_text :: "thrown \<Rightarrow> jsstring" where
  "error_text (ErrorObject message) = message"
| "error_text (OtherValue s) = s"

text \<open>The \<open>catch\<close> callback (lines 101 to 109).\<close>

definition onRejected ::
  "jsstring \<Rightarrow> int \<Rightarrow> thrown \<Rightarrow> ('pm, 'om) task_map \<Rightarrow> ('pm, 'om) task_map" where
  "onRejected taskId now err tasks =
     (case map_of tasks taskId of
        None \<Rightarrow> tasks
      | Some task \<Rightarrow>
          AList.update taskId
            (task\<lparr>status := failed, error := Some (error_text err), endTime := Some now\<rparr>)
            tasks)"

text \<open>\<open>app.get('/research/:taskId')\<close> (lines 127 to 148).\<close>

definition get_research ::
  "jsstring \<Rightarrow> ('pm, 'om) task_map \<Rightarrow> ('pm, 'om) response" where
  "get_research taskId tasks =
     (case map_of tasks taskId of
        None \<Rightarrow> \<lparr>statusCode = 404, body = TaskNotFound\<rparr>
      | Some task \<Rightarrow>
          \<lparr>statusCode = 200,
           body = TaskStatus
             (task\<lparr>progress := (if status task = running \<and> progress task \<noteq> None
                                  then progress task else None),
                   results := (if status task = completed then results task else None)\<rparr>)\<rparr>)"

text \<open>
  Everything that changes the task map while the server runs: a POST /research, and the
  three callbacks of a run, each with the task id it is bound to.
\<close>

datatype event =
    PostResearch post_env jsval
  | ProgressReported jsstring ResearchProgress
  | RunResolved jsstring int ResearchResult
  | RunRejected jsstring int thrown

fun server_step ::
  "jsnum \<Rightarrow> ('pm \<Rightarrow> ResearchProgress \<Rightarrow> 'pm) \<Rightarrow> ('pm, 'om) task_map \<Rightarrow> event \<Rightarrow>
     ('pm, 'om) task_map" where
  "server_step maxConcurrent update tasks (PostResearch env req_body) =
     fst (snd (post_research maxConcurrent env req_body tasks))"
| "server_step maxConcurrent update tasks (ProgressReported taskId p) =
     onProgress update taskId p tasks"
| "server_step maxConcurrent update tasks (RunResolved taskId now result) =
     onResolved taskId now result tasks"
| "server_step maxConcurrent update tasks (RunRejected taskId now err) =
     onRejected taskId now err tasks"

definition server_run ::
  "jsnum \<Rightarrow> ('pm \<Rightarrow> ResearchProgress \<Rightarrow> 'pm) \<Rightarrow> ('pm, 'om) task_map \<Rightarrow> event list \<Rightarrow>
     ('pm, 'om) task_map" where
  "server_run maxConcurrent update tasks evs = foldl (server_step maxConcurrent update) tasks evs"

text \<open>No stored task has a \<open>progress\<close> field.\<close>

definition progress_unset :: "('pm, 'om) task_map \<Rightarrow> bool" where
  "progress_unset tasks = list_all (\<lambda>(k, t). progress t = None) tasks"

text \<open>The task record that POST /research stores for an accepted request (lines 72 to 79).\<close>

definition created_task :: "post_env \<Rightarrow> ResearchRequest \<Rightarrow> ('pm, 'om) ResearchTask" where
  "created_task env data =
     \<lparr>task_id = ascii ''task-'' @ now_text env @ ascii ''-'' @ random_text env,
      query = rq_query data, depth = rq_depth data, breadth = rq_breadth data,
      status = running, error = None, startTime = start_date env, endTime = None,
      results = None, progress = None, output_om = None\<rparr>"

text \<open>
  An event that replaces or settles the task stored under an id: a POST /research that
  draws the same id, or the \<open>then\<close> or \<open>catch\<close> callback of a run bound to that id. A
  promise settles once, and an id repeats only when two requests read the same clock value
  and the same random text.
\<close>

fun touches :: "jsstring \<Rightarrow> event \<Rightarrow> bool" where
  "touches taskId (PostResearch env req_body) =
     (ascii ''task-'' @ now_text env @ ascii ''-'' @ random_text env = taskId)"
| "touches taskId (ProgressReported k p) = False"
| "touches taskId (RunResolved k now result) = (k = taskId)"
| "touches taskId (RunRejected k now err) = (k = taskId)"

section \<open>server.ts: GET /research\<close>





















section \<open>Concrete inputs used in the examples\<close>

definition one_running :: "(unit, unit) task_map" where
  "one_running =
     [(ascii ''task-1-a'',
       \<lparr>task_id = ascii ''task-1-a'', query = ascii ''cats'', depth = Fin 3, breadth = Fin 3,
        status = running, error = None, startTime = 1, endTime = None, results = None,
        progress = None, output_om = None\<rparr>)]"

definition env2 :: post_env where
  "env2 = \<lparr>now_text = ascii ''2'', random_text = ascii ''b'', start_date = 2\<rparr>"

definition dogs_body :: jsval where
  "dogs_body = JObj [(ascii ''query'', JStr (ascii ''dogs''))]"

definition keep_manager :: "unit \<Rightarrow> ResearchProgress \<Rightarrow> unit" where
  "keep_manager pm p = pm"

definition dogs_task :: "(unit, unit) ResearchTask" where
  "dogs_task =
     \<lparr>task_id = ascii ''task-2-b'', query = ascii ''dogs'', depth = Fin 3, breadth = Fin 3,
      status = running, error = None, startTime = 2, endTime = None, results = None,
      progress = None, output_om = None\<rparr>"

definition dogs_call :: research_call where
  "dogs_call =
     \<lparr>call_taskId = ascii ''task-2-b'', call_query = ascii ''dogs'', call_depth = Fin 3,
      call_breadth = Fin 3\<rparr>"

definition progress1 :: ResearchProgress where
  "progress1 =
     \<lparr>currentDepth = Fin 3, totalDepth = Fin 3, currentBreadth = Fin 3, totalBreadth = Fin 3,
      currentQuery = None, totalQueries = Fin 3, completedQueries = Fin 1\<rparr>"



definition env3 :: post_env where
  "env3 = \<lparr>now_text = ascii ''3'', random_text = ascii ''c'', start_date = 3\<rparr>"

definition cats_task :: "(unit, unit) ResearchTask" where
  "cats_task =
     \<lparr>task_id = ascii ''task-3-c'', query = ascii ''cats'', depth = Fin 2, breadth = Fin 3,
      status = running, error = None, startTime = 3, endTime = None, results = None,
      progress = None, output_om = None\<rparr>"

definition cats_body :: jsval where
  "cats_body = JObj [(ascii ''query'', JStr (ascii ''cats'')), (ascii ''depth'', JNum (Fin 2))]"

section \<open>The research core, modelled from the spec\<close>

text \<open>
  \<open>server.ts\<close> imports \<open>deepResearch\<close> from \<open>deep-research.ts\<close>, which is not among the
  sources. This section models the run from the specification (sections 3 to 7): the data
  model, the Result Merger, the Recursion Controller and the Progress Aggregator. The
  Content Source Adapter, the Query Planner and the Finding Extractor are capabilities the
  core is given; the model takes them as functions that return a result or a typed failure.
\<close>

text \<open>Modelled from the spec: the record \<open>ResearchFrame\<close> of section 3.\<close>

record ResearchFrame =
  topic :: jsstring
  depthRemaining :: nat
  breadthRemaining :: nat
  accumulatedLearnings :: "jsstring list"
  accumulatedSources :: "jsstring list"

text \<open>Modelled from the spec: the record \<open>SubQuery\<close> of section 3.\<close>

record SubQuery =
  sq_text :: jsstring
  researchGoal :: jsstring

text \<open>Modelled from the spec: the record \<open>Finding\<close> of section 3.\<close>

record Finding =
  finding_learnings :: "jsstring list"
  followUpQuestions :: "jsstring list"

text \<open>Modelled from the spec: a document of the Content Source Adapter (section 4.1).\<close>

record Document =
  doc_text :: jsstring
  sourceId :: jsstring

text \<open>
  Modelled from the spec: the failure taxonomy of section 7, and the configuration error
  of the top-level call.
\<close>

datatype failure =
    AdapterFailure
  | PlanningFailure
  | ExtractionFailure
  | RunAborted
  | ConfigurationError

text \<open>
  Modelled from the spec: the contracts \<open>fetch\<close>, \<open>plan\<close> and \<open>extract\<close> of sections 4.1 to
  4.3, and the case and whitespace normalisation of a query text (section 3), which the
  spec names without defining it.
\<close>

record capabilities =
  fetch :: "jsstring \<Rightarrow> failure + Document list"
  plan :: "jsstring \<Rightarrow> jsstring list \<Rightarrow> nat \<Rightarrow> failure + SubQuery list"
  extract' :: "SubQuery \<Rightarrow> Document list \<Rightarrow> failure + Finding"
  normalize' :: "jsstring \<Rightarrow> jsstring"

text \<open>
  Modelled from the spec: the set with insertion order of \<open>ResearchResult\<close> (section 3):
  an entry is added at the end unless it is already there.
\<close>

definition add_unique :: "'a list \<Rightarrow> 'a \<Rightarrow> 'a list" where
  "add_unique seen x = (if x \<in> set seen then seen else seen @ [x])"

definition dedupe :: "'a list \<Rightarrow> 'a list" where
  "dedupe xs = foldl add_unique [] xs"

text \<open>
  Modelled from the spec: the Result Merger \<open>merge\<close> of section 4.6, the union of all
  learnings (first-seen order preserved) and all sources, deduplicated by exact match.
\<close>

definition merge :: "ResearchResult list \<Rightarrow> ResearchResult" where
  "merge frameResults =
     \<lparr>learnings = dedupe (concat (map learnings frameResults)),
      sources = dedupe (concat (map sources frameResults))\<rparr>"

text \<open>
  Modelled from the spec: the edge case of section 4.4, a sub-query whose normalised text
  was already seen in the frame's sibling set is dropped before dispatch.
\<close>

fun drop_repeated :: "(jsstring \<Rightarrow> jsstring) \<Rightarrow> jsstring list \<Rightarrow> SubQuery list \<Rightarrow> SubQuery list" where
  "drop_repeated nf seen [] = []"
| "drop_repeated nf seen (sq # sqs) =
     (if nf (sq_text sq) \<in> set seen then drop_repeated nf seen sqs
      else sq # drop_repeated nf (nf (sq_text sq) # seen) sqs)"

text \<open>
  Modelled from the spec: step 1 of section 4.4 (Planning), the planner called with
  \<open>maxQueries = breadthRemaining\<close>; a planner failure is zero sub-queries (section 4.2).
\<close>

definition planned :: "capabilities \<Rightarrow> ResearchFrame \<Rightarrow> SubQuery list" where
  "planned caps f =
     (case plan caps (topic f) (accumulatedLearnings f) (breadthRemaining f) of
        Inl failure \<Rightarrow> []
      | Inr subQueries \<Rightarrow> drop_repeated (normalize' caps) [] subQueries)"

text \<open>
  Modelled from the spec: one unit of work of step 2 of section 4.4, Fetch then Extract,
  with both failures normalised to an empty contribution (step 3 and section 7). The
  result is the Finding and the source identifiers of the documents.
\<close>

definition run_unit :: "capabilities \<Rightarrow> SubQuery \<Rightarrow> Finding \<times> jsstring list" where
  "run_unit caps sq =
     (case fetch caps (sq_text sq) of
        Inl failure \<Rightarrow> (\<lparr>finding_learnings = [], followUpQuestions = []\<rparr>, [])
      | Inr documents \<Rightarrow>
          (case extract' caps sq documents of
             Inl failure \<Rightarrow> (\<lparr>finding_learnings = [], followUpQuestions = []\<rparr>, [])
           | Inr finding \<Rightarrow> (finding, map sourceId documents)))"

text \<open>
  Modelled from the spec: the child frames of step 3 of section 4.4, one per follow-up
  question when \<open>depthRemaining > 1\<close>, with \<open>depthRemaining - 1\<close> and breadth
  \<open>max(1, floor(breadthRemaining / 2))\<close>. A child starts from the learnings and sources
  accumulated so far on its branch (the spec does not say what a child frame accumulates;
  no theorem below depends on it).
\<close>

definition child_frames :: "ResearchFrame \<Rightarrow> Finding \<Rightarrow> jsstring list \<Rightarrow> ResearchFrame list" where
  "child_frames f finding srcs =
     (if depthRemaining f > 1 \<and> followUpQuestions finding \<noteq> []
      then map (\<lambda>question.
                  \<lparr>topic = question, depthRemaining = depthRemaining f - 1,
                   breadthRemaining = max 1 (breadthRemaining f div 2),
                   accumulatedLearnings = accumulatedLearnings f @ finding_learnings finding,
                   accumulatedSources = accumulatedSources f @ srcs\<rparr>)
             (followUpQuestions finding)
      else [])"

text \<open>
  Modelled from the spec: the algorithm per frame of section 4.4. A frame with
  \<open>depthRemaining = 0\<close> is a leaf without Planning. Otherwise every planned sub-query is
  run as a unit, the child frames of its Finding are explored to the end (step 4), and the
  frame merges what it had accumulated, the learnings and sources of its units, and the
  results of the child frames (step 5); with no sub-query this is the frame's accumulated
  learnings only. The second component lists the frames entered, the frame itself first.
\<close>

function explore :: "capabilities \<Rightarrow> ResearchFrame \<Rightarrow> ResearchResult \<times> ResearchFrame list" where
  "explore caps f =
     (if depthRemaining f = 0
      then (merge [\<lparr>learnings = accumulatedLearnings f, sources = accumulatedSources f\<rparr>], [f])
      else
        (let outcomes =
               map (\<lambda>sq.
                      let unit = run_unit caps sq;
                          children = map (explore caps) (child_frames f (fst unit) (snd unit))
                      in (\<lparr>learnings = finding_learnings (fst unit), sources = snd unit\<rparr> #
                            map fst children,
                          concat (map snd children)))
                   (planned caps f)
         in (merge (\<lparr>learnings = accumulatedLearnings f, sources = accumulatedSources f\<rparr> #
                    concat (map fst outcomes)),
             f # concat (map snd outcomes))))"
  by pat_completeness auto
termination
  by (relation "measure (\<lambda>(caps, f). depthRemaining f)") (auto simp: child_frames_def split: if_splits)

declare explore.simps [simp del]

text \<open>
  Modelled from the spec: the entry call \<open>run\<close> of section 6. Depth and breadth outside
  1..5 fail fast before any work is dispatched (section 7); otherwise the result of the
  root frame is returned.
\<close>

definition run :: "capabilities \<Rightarrow> jsstring \<Rightarrow> int \<Rightarrow> int \<Rightarrow> failure + ResearchResult" where
  "run caps query_text maxDepth maxBreadth =
     (if maxDepth < 1 \<or> 5 < maxDepth \<or> maxBreadth < 1 \<or> 5 < maxBreadth
      then Inl ConfigurationError
      else Inr (fst (explore caps
                  \<lparr>topic = query_text, depthRemaining = nat maxDepth,
                   breadthRemaining = nat maxBreadth, accumulatedLearnings = [],
                   accumulatedSources = []\<rparr>)))"

text \<open>
  Modelled from the spec: an Extractor whose follow-up questions are thrown away; it states
  what "discarded" means for a run of depth 1 (section 8).
\<close>

definition discard_follow_ups :: "capabilities \<Rightarrow> capabilities" where
  "discard_follow_ups caps =
     caps\<lparr>extract' := \<lambda>sq documents.
             (case extract' caps sq documents of
                Inl failure \<Rightarrow> Inl failure
              | Inr finding \<Rightarrow> Inr (finding\<lparr>followUpQuestions := []\<rparr>))\<rparr>"

text \<open>
  Modelled from the spec: what the frames of a run contribute before any merging, in the
  order the Recursion Controller holds them (section 4.4): what the frame had accumulated,
  then, for each of its sub-queries in the Planner's order, the learnings and sources of
  the unit followed by the contributions of the child frames of that unit.
\<close>

function contributions :: "capabilities \<Rightarrow> ResearchFrame \<Rightarrow> ResearchResult list" where
  "contributions caps f =
     \<lparr>learnings = accumulatedLearnings f, sources = accumulatedSources f\<rparr> #
     (if depthRemaining f = 0 then []
      else concat
             (map (\<lambda>sq.
                     let unit = run_unit caps sq
                     in \<lparr>learnings = finding_learnings (fst unit), sources = snd unit\<rparr> #
                        concat (map (contributions caps)
                                  (child_frames f (fst unit) (snd unit))))
                (planned caps f)))"
  by pat_completeness auto
termination
  by (relation "measure (\<lambda>(caps, f). depthRemaining f)") (auto simp: child_frames_def split: if_splits)

declare contributions.simps [simp del]

text \<open>
  Two lists add the same new entries, in the same order, to every list of entries already
  seen.
\<close>

definition same_seen :: "'a list \<Rightarrow> 'a list \<Rightarrow> bool" where
  "same_seen xs ys \<longleftrightarrow> (\<forall>seen. foldl add_unique seen xs = foldl add_unique seen ys)"

text \<open>
  Modelled from the spec: the unit of a sub-query fails when the Adapter fails on its text
  (\<open>AdapterFailure\<close>) or the Extractor fails on the documents found (\<open>ExtractionFailure\<close>),
  sections 4.1, 4.3 and 7.
\<close>

definition unit_fails :: "capabilities \<Rightarrow> SubQuery \<Rightarrow> bool" where
  "unit_fails caps sq =
     (case fetch caps (sq_text sq) of
        Inl failure \<Rightarrow> True
      | Inr documents \<Rightarrow>
          (case extract' caps sq documents of Inl failure \<Rightarrow> True | Inr finding \<Rightarrow> False))"

text \<open>
  Modelled from the spec: what the unit of a sub-query hands to the Merging step of its
  frame (steps 3 to 5 of section 4.4): its own learnings and sources, then the results of
  the child frames it spawned.
\<close>

definition unit_results :: "capabilities \<Rightarrow> ResearchFrame \<Rightarrow> SubQuery \<Rightarrow> ResearchResult list" where
  "unit_results caps f sq =
     \<lparr>learnings = finding_learnings (fst (run_unit caps sq)), sources = snd (run_unit caps sq)\<rparr> #
     map (\<lambda>child. fst (explore caps child))
       (child_frames f (fst (run_unit caps sq)) (snd (run_unit caps sq)))"

section \<open>The progress counters of a run, modelled from the spec\<close>


text \<open>
  Modelled from the spec: the work a run has outstanding (section 4.4): a frame that has
  been created and not yet planned, or a dispatched sub-query of a frame whose unit has
  not yet completed.
\<close>

datatype work = PlanFrame ResearchFrame | FetchExtract ResearchFrame SubQuery

fun is_unit :: "work \<Rightarrow> bool" where
  "is_unit (FetchExtract f sq) = True"
| "is_unit (PlanFrame f) = False"













section \<open>Stub capabilities used in the examples\<close>

text \<open>
  A Planner that returns the queries A and B for the topic \<open>root\<close> and nothing for any other
  topic, an Adapter that finds one document of source \<open>s1\<close>, and an Extractor that returns
  the learning L and the follow-up question F for every sub-query.
\<close>

definition stub_caps :: capabilities where
  "stub_caps =
     \<lparr>fetch = \<lambda>t. Inr [\<lparr>doc_text = t, sourceId = ascii ''s1''\<rparr>],
      plan = \<lambda>t prior n.
               if t = ascii ''root''
               then Inr [\<lparr>sq_text = ascii ''A'', researchGoal = []\<rparr>,
                         \<lparr>sq_text = ascii ''B'', researchGoal = []\<rparr>]
               else Inr [],
      extract' = \<lambda>sq documents.
                   Inr \<lparr>finding_learnings = [ascii ''L''], followUpQuestions = [ascii ''F'']\<rparr>,
      normalize' = \<lambda>t. t\<rparr>"

text \<open>The same with an Adapter that always fails.\<close>

definition failing_caps :: capabilities where
  "failing_caps = stub_caps\<lparr>fetch := \<lambda>t. Inl AdapterFailure\<rparr>"

text \<open>
  The same with an Extractor that returns one learning per query, the text of the query,
  and no follow-up question (the stub of section 8).
\<close>

definition quiet_caps :: capabilities where
  "quiet_caps =
     stub_caps\<lparr>extract' := \<lambda>sq documents.
                 Inr \<lparr>finding_learnings = [sq_text sq], followUpQuestions = []\<rparr>\<rparr>"

definition root_frame :: "nat \<Rightarrow> nat \<Rightarrow> ResearchFrame" where
  "root_frame d b =
     \<lparr>topic = ascii ''root'', depthRemaining = d, breadthRemaining = b,
      accumulatedLearnings = [], accumulatedSources = []\<rparr>"

text \<open>
  The branches A and B find overlapping learnings: A finds L and M, B finds M, K and L;
  there are no follow-up questions.
\<close>

definition overlap_caps :: capabilities where
  "overlap_caps =
     stub_caps\<lparr>extract' := \<lambda>sq documents.
                 Inr \<lparr>finding_learnings =
                        (if sq_text sq = ascii ''A'' then [ascii ''L'', ascii ''M'']
                         else [ascii ''M'', ascii ''K'', ascii ''L'']),
                      followUpQuestions = []\<rparr>\<rparr>"

text \<open>
  Every kind of failure in one run: the Planner returns A, B and C for the root and fails on
  every other topic, the Adapter fails on B, and the Extractor fails on C and returns the
  text of the query as the learning, with the follow-up question F, otherwise.
\<close>

definition flaky_caps :: capabilities where
  "flaky_caps =
     \<lparr>fetch = \<lambda>t. if t = ascii ''B'' then Inl AdapterFailure
                   else Inr [\<lparr>doc_text = t, sourceId = ascii ''s1''\<rparr>],
      plan = \<lambda>t prior n.
               if t = ascii ''root''
               then Inr [\<lparr>sq_text = ascii ''A'', researchGoal = []\<rparr>,
                         \<lparr>sq_text = ascii ''B'', researchGoal = []\<rparr>,
                         \<lparr>sq_text = ascii ''C'', researchGoal = []\<rparr>]
               else Inl PlanningFailure,
      extract' = \<lambda>sq documents.
                   if sq_text sq = ascii ''C'' then Inl ExtractionFailure
                   else Inr \<lparr>finding_learnings = [sq_text sq],
                            followUpQuestions = [ascii ''F'']\<rparr>,
      normalize' = \<lambda>t. t\<rparr>"


section \<open>The request schema\<close>


lemma isInteger_iff: "isInteger n \<longleftrightarrow> (\<exists>d. n = Fin (of_int d))"
  by (cases n) auto

lemma int_1_5_schema_Inr:
  "int_1_5_schema v = Inr n \<longleftrightarrow> (\<exists>d. v = JNum n \<and> n = Fin (of_int d) \<and> 1 \<le> d \<and> d \<le> 5)"
  apply (cases v; simp add: int_1_5_schema_def Let_def js_gt_def isInteger_iff)
  apply (auto simp: isInteger_iff)
  done

lemma query_schema_Inr:
  "query_schema v = Inr q \<longleftrightarrow> v = JStr q \<and> 1 \<le> length q \<and> length q \<le> 1000"
  by (cases v) (auto simp: query_schema_def Let_def Suc_le_eq)

lemma query_schema_Inl: "query_schema v = Inl cs \<Longrightarrow> cs \<noteq> []"
  by (cases v) (auto simp: query_schema_def Let_def split: if_splits)

lemma int_1_5_schema_Inl: "int_1_5_schema v = Inl cs \<Longrightarrow> cs \<noteq> []"
  by (cases v) (auto simp: int_1_5_schema_def Let_def split: if_splits)


lemma safeParse_Inr:
  "safeParse b = Inr r \<longleftrightarrow>
     (\<exists>fs. b = JObj fs \<and>
        query_schema (get_prop fs (ascii ''query'')) = Inr (rq_query r) \<and>
        level_schema (get_prop fs (ascii ''depth'')) = Inr (rq_depth r) \<and>
        level_schema (get_prop fs (ascii ''breadth'')) = Inr (rq_breadth r))"
  by (cases b) (auto simp: safeParse_def Let_def split: sum.splits)

lemma safeParse_Inl: "safeParse b = Inl issues \<Longrightarrow> issues \<noteq> []"
  by (cases b)
    (auto simp: safeParse_def Let_def issues_at_def level_schema_def
      dest: query_schema_Inl int_1_5_schema_Inl split: sum.splits)

lemma level_schema_Inr:
  "level_schema v = Inr n \<longleftrightarrow>
     (v = JUndefined \<and> n = Fin 3) \<or> (\<exists>d. v = JNum n \<and> n = Fin (of_int d) \<and> 1 \<le> d \<and> d \<le> 5)"
proof (cases "v = JUndefined")
  case True
  have "int_1_5_schema (JNum (Fin 3)) = Inr (Fin 3)"
    by (simp add: int_1_5_schema_def js_gt_def)
  with True show ?thesis by (auto simp: level_schema_def)
next
  case False
  then show ?thesis by (simp add: level_schema_def int_1_5_schema_Inr)
qed

text \<open>
  Claim C9. A body is accepted exactly when it is an object whose \<open>query\<close> is a string of 1
  to 1000 code units and whose \<open>depth\<close> and \<open>breadth\<close> are each either missing, in which
  case the parsed value is 3, or an integer from 1 to 5. So every accepted request has a
  non-empty query and an integer depth and breadth in 1..5.
\<close>

theorem request_schema_accepts:
  "(safeParse req_body = Inr r \<longleftrightarrow>
      (\<exists>fs. req_body = JObj fs \<and>
         get_prop fs (ascii ''query'') = JStr (rq_query r) \<and>
         1 \<le> length (rq_query r) \<and> length (rq_query r) \<le> 1000 \<and>
         (get_prop fs (ascii ''depth'') = JUndefined \<and> rq_depth r = Fin 3 \<or>
          get_prop fs (ascii ''depth'') = JNum (rq_depth r) \<and>
          (\<exists>d\<in>{1..5}. rq_depth r = Fin (of_int d))) \<and>
         (get_prop fs (ascii ''breadth'') = JUndefined \<and> rq_breadth r = Fin 3 \<or>
          get_prop fs (ascii ''breadth'') = JNum (rq_breadth r) \<and>
          (\<exists>b\<in>{1..5}. rq_breadth r = Fin (of_int b))))) \<and>
   (safeParse req_body = Inr r \<longrightarrow>
      rq_query r \<noteq> [] \<and> (\<exists>d\<in>{1..5}. rq_depth r = Fin (of_int d)) \<and>
      (\<exists>b\<in>{1..5}. rq_breadth r = Fin (of_int b)))"
proof -
  have three: "\<exists>d\<in>{1..5}. Fin 3 = Fin (rat_of_int d)"
    by (rule bexI [of _ 3]) simp_all
  have lvl: "level_schema v = Inr n \<longleftrightarrow>
      (v = JUndefined \<and> n = Fin 3 \<or> v = JNum n \<and> (\<exists>d\<in>{1..5}. n = Fin (of_int d)))" for v n
    unfolding level_schema_Inr by auto
  have lvl_range: "\<exists>d\<in>{1..5}. n = Fin (of_int d)" if "level_schema v = Inr n" for v n
    using that three unfolding lvl by auto
  show ?thesis
  proof (intro conjI impI)
    show "safeParse req_body = Inr r \<longleftrightarrow>
      (\<exists>fs. req_body = JObj fs \<and>
         get_prop fs (ascii ''query'') = JStr (rq_query r) \<and>
         1 \<le> length (rq_query r) \<and> length (rq_query r) \<le> 1000 \<and>
         (get_prop fs (ascii ''depth'') = JUndefined \<and> rq_depth r = Fin 3 \<or>
          get_prop fs (ascii ''depth'') = JNum (rq_depth r) \<and>
          (\<exists>d\<in>{1..5}. rq_depth r = Fin (of_int d))) \<and>
         (get_prop fs (ascii ''breadth'') = JUndefined \<and> rq_breadth r = Fin 3 \<or>
          get_prop fs (ascii ''breadth'') = JNum (rq_breadth r) \<and>
          (\<exists>b\<in>{1..5}. rq_breadth r = Fin (of_int b))))"
      unfolding safeParse_Inr query_schema_Inr lvl by (simp add: conj_ac)
  next
    assume ok: "safeParse req_body = Inr r"
    then obtain fs where
      q: "query_schema (get_prop fs (ascii ''query'')) = Inr (rq_query r)" and
      d: "level_schema (get_prop fs (ascii ''depth'')) = Inr (rq_depth r)" and
      b: "level_schema (get_prop fs (ascii ''breadth'')) = Inr (rq_breadth r)"
      unfolding safeParse_Inr by blast
    from q show "rq_query r \<noteq> []" unfolding query_schema_Inr by auto
    from d show "\<exists>d\<in>{1..5}. rq_depth r = Fin (of_int d)" by (rule lvl_range)
    from b show "\<exists>b\<in>{1..5}. rq_breadth r = Fin (of_int b)" by (rule lvl_range)
  qed
qed

text \<open>
  Witness for C9: \<open>{query: "cats", depth: 2}\<close> is accepted, with breadth defaulted to 3.
\<close>

theorem request_schema_accepts_witness:
  "safeParse (JObj [(ascii ''query'', JStr (ascii ''cats'')), (ascii ''depth'', JNum (Fin 2))]) =
     Inr \<lparr>rq_query = ascii ''cats'', rq_depth = Fin 2, rq_breadth = Fin 3\<rparr> \<and>
   ascii ''cats'' \<noteq> []"
proof -
  have two: "\<exists>d\<in>{1..5}. Fin 2 = Fin (rat_of_int d)"
    by (rule bexI [of _ 2]) simp_all
  show ?thesis
  using two request_schema_accepts
    [of "JObj [(ascii ''query'', JStr (ascii ''cats'')), (ascii ''depth'', JNum (Fin 2))]"
        "\<lparr>rq_query = ascii ''cats'', rq_depth = Fin 2, rq_breadth = Fin 3\<rparr>"]
  by (simp add: get_prop_def ascii_def)
qed

section \<open>POST /research\<close>

lemma safeParse_valid_object:
  assumes "get_prop fs (ascii ''query'') = JStr q" and "1 \<le> length q" and "length q \<le> 1000"
    and "get_prop fs (ascii ''depth'') = JUndefined \<or>
         (\<exists>d\<in>{1..5}. get_prop fs (ascii ''depth'') = JNum (Fin (of_int d)))"
    and "get_prop fs (ascii ''breadth'') = JUndefined \<or>
         (\<exists>b\<in>{1..5}. get_prop fs (ascii ''breadth'') = JNum (Fin (of_int b)))"
  shows "\<exists>r. safeParse (JObj fs) = Inr r"
proof -
  have lvl: "\<exists>n. level_schema v = Inr n"
    if "v = JUndefined \<or> (\<exists>d\<in>{1..5}. v = JNum (Fin (of_int d)))" for v
    using that unfolding level_schema_Inr by auto
  obtain d b where "level_schema (get_prop fs (ascii ''depth'')) = Inr d"
    and "level_schema (get_prop fs (ascii ''breadth'')) = Inr b"
    using lvl [OF assms(4)] lvl [OF assms(5)] by blast
  moreover have "query_schema (get_prop fs (ascii ''query'')) = Inr q"
    using assms(1-3) by (simp add: query_schema_Inr)
  ultimately have "safeParse (JObj fs) = Inr \<lparr>rq_query = q, rq_depth = d, rq_breadth = b\<rparr>"
    by (simp add: safeParse_Inr)
  then show ?thesis by blast
qed

text \<open>
  Claim C1. When the body fails validation, the response is 400 with the (non-empty) list of
  validation issues, the task map is unchanged and \<open>deepResearch\<close> is not called. A body
  that fails and is an object has a \<open>query\<close> that is not a string of 1 to 1000 code units,
  or a \<open>depth\<close> or \<open>breadth\<close> that is present and not an integer from 1 to 5.
\<close>

theorem invalid_request_rejected:
  assumes "safeParse req_body = Inl issues"
  shows "post_research maxConcurrent env req_body tasks =
           (\<lparr>statusCode = 400, body = InvalidRequest issues\<rparr>, tasks, None) \<and>
         issues \<noteq> [] \<and>
         (\<forall>fs. req_body = JObj fs \<longrightarrow>
            \<not> (\<exists>q. get_prop fs (ascii ''query'') = JStr q \<and> 1 \<le> length q \<and> length q \<le> 1000) \<or>
            \<not> (get_prop fs (ascii ''depth'') = JUndefined \<or>
               (\<exists>d\<in>{1..5}. get_prop fs (ascii ''depth'') = JNum (Fin (of_int d)))) \<or>
            \<not> (get_prop fs (ascii ''breadth'') = JUndefined \<or>
               (\<exists>b\<in>{1..5}. get_prop fs (ascii ''breadth'') = JNum (Fin (of_int b)))))"
proof (intro conjI allI impI)
  show "post_research maxConcurrent env req_body tasks =
      (\<lparr>statusCode = 400, body = InvalidRequest issues\<rparr>, tasks, None)"
    using assms by (simp add: post_research_def)
  show "issues \<noteq> []"
    using assms by (rule safeParse_Inl)
next
  fix fs
  assume obj: "req_body = JObj fs"
  show "\<not> (\<exists>q. get_prop fs (ascii ''query'') = JStr q \<and> 1 \<le> length q \<and> length q \<le> 1000) \<or>
        \<not> (get_prop fs (ascii ''depth'') = JUndefined \<or>
           (\<exists>d\<in>{1..5}. get_prop fs (ascii ''depth'') = JNum (Fin (of_int d)))) \<or>
        \<not> (get_prop fs (ascii ''breadth'') = JUndefined \<or>
           (\<exists>b\<in>{1..5}. get_prop fs (ascii ''breadth'') = JNum (Fin (of_int b))))"
  proof (rule ccontr)
    assume "\<not> ?thesis"
    then obtain q where "get_prop fs (ascii ''query'') = JStr q" "1 \<le> length q" "length q \<le> 1000"
      and "get_prop fs (ascii ''depth'') = JUndefined \<or>
           (\<exists>d\<in>{1..5}. get_prop fs (ascii ''depth'') = JNum (Fin (of_int d)))"
      and "get_prop fs (ascii ''breadth'') = JUndefined \<or>
           (\<exists>b\<in>{1..5}. get_prop fs (ascii ''breadth'') = JNum (Fin (of_int b)))"
      by blast
    then have "\<exists>r. safeParse (JObj fs) = Inr r"
      by (rule safeParse_valid_object)
    with assms obj show False by simp
  qed
qed

text \<open>
  Witness for C1: \<open>{query: "cats", depth: 6}\<close> fails with one \<open>too_big\<close> issue at \<open>depth\<close>.
\<close>

theorem invalid_request_rejected_witness:
  "safeParse (JObj [(ascii ''query'', JStr (ascii ''cats'')), (ascii ''depth'', JNum (Fin 6))]) =
     Inl [\<lparr>code = too_big, path = [ascii ''depth'']\<rparr>] \<and>
   post_research (Fin 5) \<lparr>now_text = ascii ''17'', random_text = ascii ''x'', start_date = 17\<rparr>
       (JObj [(ascii ''query'', JStr (ascii ''cats'')), (ascii ''depth'', JNum (Fin 6))])
       ([] :: (unit, unit) task_map) =
     (\<lparr>statusCode = 400,
       body = InvalidRequest [\<lparr>code = too_big, path = [ascii ''depth'']\<rparr>]\<rparr>, [], None)"
proof -
  have h: "safeParse (JObj [(ascii ''query'', JStr (ascii ''cats'')), (ascii ''depth'', JNum (Fin 6))]) =
     Inl [\<lparr>code = too_big, path = [ascii ''depth'']\<rparr>]"
    by (simp add: safeParse_def get_prop_def ascii_def query_schema_def level_schema_def
        int_1_5_schema_def js_gt_def issues_at_def)
  show ?thesis
    using h invalid_request_rejected [OF h, of "Fin 5"
        "\<lparr>now_text = ascii ''17'', random_text = ascii ''x'', start_date = 17\<rparr>"
        "[] :: (unit, unit) task_map"]
    by simp
qed

text \<open>
  Counterexample to C2 as stated: with one running task and a maximum of 1, the body \<open>{}\<close>
  is answered with 400, not 429: validation comes before the capacity check.
\<close>

theorem at_capacity_invalid_body_counterexample:
  "js_ge (Fin (of_nat (runningTasks one_running))) (Fin 1) \<and>
   post_research (Fin 1) \<lparr>now_text = ascii ''2'', random_text = ascii ''b'', start_date = 2\<rparr>
       (JObj []) one_running =
     (\<lparr>statusCode = 400,
       body = InvalidRequest [\<lparr>code = invalid_type, path = [ascii ''query'']\<rparr>]\<rparr>,
      one_running, None)"
proof -
  have "safeParse (JObj []) = Inl [\<lparr>code = invalid_type, path = [ascii ''query'']\<rparr>]"
    by (simp add: safeParse_def get_prop_def query_schema_def level_schema_def
        int_1_5_schema_def js_gt_def issues_at_def)
  then show ?thesis
    by (simp add: one_running_def runningTasks_def js_ge_def post_research_def)
qed

text \<open>
  Claim C2, amended. When the number of running tasks has reached the maximum, no task is
  created and no research is started, whatever the body; the response is 429 for a body
  that passes validation, and the 400 of the validation step for one that does not.
\<close>

theorem at_capacity_nothing_started:
  assumes "js_ge (Fin (of_nat (runningTasks tasks))) maxConcurrent"
  shows "snd (post_research maxConcurrent env req_body tasks) = (tasks, None) \<and>
         (case safeParse req_body of
            Inr data \<Rightarrow>
              fst (post_research maxConcurrent env req_body tasks) =
                \<lparr>statusCode = 429, body = TooManyTasks maxConcurrent\<rparr>
          | Inl issues \<Rightarrow>
              fst (post_research maxConcurrent env req_body tasks) =
                \<lparr>statusCode = 400, body = InvalidRequest issues\<rparr>)"
  using assms by (simp add: post_research_def split: sum.splits)

text \<open>
  Witness for C2: one running task, a maximum of 1 and the valid body \<open>{query: "dogs"}\<close>.
\<close>

theorem at_capacity_nothing_started_witness:
  "js_ge (Fin (of_nat (runningTasks one_running))) (Fin 1) \<and>
   post_research (Fin 1) \<lparr>now_text = ascii ''2'', random_text = ascii ''b'', start_date = 2\<rparr>
       (JObj [(ascii ''query'', JStr (ascii ''dogs''))]) one_running =
     (\<lparr>statusCode = 429, body = TooManyTasks (Fin 1)\<rparr>, one_running, None)"
proof -
  have cap: "js_ge (Fin (of_nat (runningTasks one_running))) (Fin 1)"
    by (simp add: one_running_def runningTasks_def js_ge_def)
  have ok: "safeParse (JObj [(ascii ''query'', JStr (ascii ''dogs''))]) =
      Inr \<lparr>rq_query = ascii ''dogs'', rq_depth = Fin 3, rq_breadth = Fin 3\<rparr>"
    by (simp add: safeParse_def get_prop_def ascii_def query_schema_def level_schema_def
        int_1_5_schema_def js_gt_def)
  show ?thesis
    using cap ok at_capacity_nothing_started [OF cap,
        of "\<lparr>now_text = ascii ''2'', random_text = ascii ''b'', start_date = 2\<rparr>"
           "JObj [(ascii ''query'', JStr (ascii ''dogs''))]"]
    by (simp add: prod_eq_iff)
qed

section \<open>The callbacks of a run\<close>

lemma set_update_subset: "set (AList.update k v al) \<subseteq> insert (k, v) (set al)"
  by (induct al) auto

lemma progress_unset_update:
  "progress_unset tasks \<Longrightarrow> progress v = None \<Longrightarrow> progress_unset (AList.update k v tasks)"
  using set_update_subset [of k v tasks]
  by (auto simp: progress_unset_def list_all_iff)

lemma progress_unset_lookup:
  "progress_unset tasks \<Longrightarrow> map_of tasks k = Some t \<Longrightarrow> progress t = None"
  by (auto simp: progress_unset_def list_all_iff dest: map_of_SomeD)

lemma progress_unset_step:
  assumes "progress_unset tasks"
  shows "progress_unset (server_step maxConcurrent update tasks ev)"
proof (cases ev)
  case (PostResearch env req_body)
  with assms show ?thesis
    by (auto simp: post_research_def Let_def intro: progress_unset_update split: sum.splits)
next
  case (ProgressReported taskId p)
  with assms show ?thesis
    by (auto simp: onProgress_def dest: progress_unset_lookup split: option.splits)
next
  case (RunResolved taskId now result)
  with assms show ?thesis
    by (auto simp: onResolved_def intro!: progress_unset_update dest: progress_unset_lookup
        split: option.splits)
next
  case (RunRejected taskId now err)
  with assms show ?thesis
    by (auto simp: onRejected_def intro!: progress_unset_update dest: progress_unset_lookup
        split: option.splits)
qed

lemma progress_unset_run:
  "progress_unset tasks \<Longrightarrow> progress_unset (server_run maxConcurrent update tasks evs)"
  unfolding server_run_def
  by (induction evs arbitrary: tasks) (simp_all add: progress_unset_step)

lemma stored_step:
  assumes "map_of tasks k \<noteq> None"
  shows "map_of (server_step maxConcurrent update tasks ev) k \<noteq> None"
  using assms
  by (cases ev)
    (auto simp: post_research_def onProgress_def onResolved_def onRejected_def Let_def
      AList.update_conv' split: sum.splits option.splits)

lemma stored_run:
  "map_of tasks k \<noteq> None \<Longrightarrow> map_of (server_run maxConcurrent update tasks evs) k \<noteq> None"
proof (induction evs arbitrary: tasks)
  case Nil
  then show ?case by (simp add: server_run_def)
next
  case (Cons ev evs)
  have "map_of (server_step maxConcurrent update tasks ev) k \<noteq> None"
    using Cons.prems by (rule stored_step)
  then have "map_of (server_run maxConcurrent update (server_step maxConcurrent update tasks ev) evs) k \<noteq> None"
    by (rule Cons.IH)
  then show ?case by (simp add: server_run_def)
qed

lemma post_research_stores:
  assumes "post_research maxConcurrent env req_body tasks0 = (resp, tasks1, Some call)"
  shows "\<exists>task. map_of tasks1 (call_taskId call) = Some task \<and> progress task = None \<and>
           status task = running"
  using assms
  by (auto simp: post_research_def Let_def AList.update_conv' split: sum.splits if_splits)

lemma untouched_step:
  assumes "\<not> touches k ev" and "map_of tasks k = Some t" and "progress t = None"
  shows "map_of (server_step maxConcurrent update tasks ev) k = Some t"
proof (cases ev)
  case (PostResearch env req_body)
  with assms show ?thesis
    by (auto simp: post_research_def Let_def AList.update_conv' split: sum.splits)
next
  case (ProgressReported k' p)
  with assms show ?thesis
    by (auto simp: onProgress_def AList.update_conv' split: option.splits)
next
  case (RunResolved k' now result)
  with assms show ?thesis
    by (auto simp: onResolved_def AList.update_conv' split: option.splits)
next
  case (RunRejected k' now err)
  with assms show ?thesis
    by (auto simp: onRejected_def AList.update_conv' split: option.splits)
qed

lemma untouched_run:
  "\<forall>ev\<in>set evs. \<not> touches k ev \<Longrightarrow> map_of tasks k = Some t \<Longrightarrow> progress t = None \<Longrightarrow>
     map_of (server_run maxConcurrent update tasks evs) k = Some t"
proof (induction evs arbitrary: tasks)
  case Nil
  then show ?case by (simp add: server_run_def)
next
  case (Cons ev evs)
  have "map_of (server_step maxConcurrent update tasks ev) k = Some t"
    using Cons.prems by (intro untouched_step) auto
  then have "map_of (server_run maxConcurrent update (server_step maxConcurrent update tasks ev) evs) k = Some t"
    using Cons.prems by (intro Cons.IH) auto
  then show ?case by (simp add: server_run_def)
qed

lemma post_research_created:
  assumes "post_research maxConcurrent env req_body tasks0 = (resp, tasks1, Some call)"
  shows "\<exists>data. safeParse req_body = Inr data \<and>
           call_taskId call = ascii ''task-'' @ now_text env @ ascii ''-'' @ random_text env \<and>
           map_of tasks1 (call_taskId call) = Some (created_task env data)"
  using assms
  by (auto simp: post_research_def Let_def AList.update_conv' created_task_def
      split: sum.splits if_splits)

text \<open>
  Claim C3. Take a task started by POST /research and any later state of the server. When
  the promise of its run resolves, the task stored under its id has status \<open>completed\<close>,
  its \<open>endTime\<close> set and the learnings of the result as its \<open>results\<close>; when the promise
  rejects, it has status \<open>failed\<close>, its \<open>endTime\<close> set, and as its \<open>error\<close> the message of
  the \<open>Error\<close> thrown, or the text of any other value thrown. When no later request drew the
  same id and the promise had not settled before, the stored task is the very task the
  POST created, with these fields changed and every other field as created.
\<close>

theorem run_outcome_stored:
  assumes "post_research maxConcurrent env req_body tasks0 = (resp, tasks1, Some call)"
    and "tasks = server_run maxConcurrent update tasks1 evs"
  shows "(\<exists>task. map_of (onResolved (call_taskId call) now result tasks) (call_taskId call) = Some task \<and>
            status task = completed \<and> endTime task = Some now \<and>
            results task = Some (learnings result)) \<and>
         (\<exists>task. map_of (onRejected (call_taskId call) now err tasks) (call_taskId call) = Some task \<and>
            status task = failed \<and> endTime task = Some now \<and>
            (\<forall>m. err = ErrorObject m \<longrightarrow> error task = Some m) \<and>
            (\<forall>s. err = OtherValue s \<longrightarrow> error task = Some s)) \<and>
         ((\<forall>ev\<in>set evs. \<not> touches (call_taskId call) ev) \<longrightarrow>
            (\<exists>data. safeParse req_body = Inr data \<and>
               map_of (onResolved (call_taskId call) now result tasks) (call_taskId call) =
                 Some ((created_task env data)
                        \<lparr>status := completed, endTime := Some now,
                         results := Some (learnings result)\<rparr>) \<and>
               (\<forall>m. err = ErrorObject m \<longrightarrow>
                  map_of (onRejected (call_taskId call) now err tasks) (call_taskId call) =
                    Some ((created_task env data)
                           \<lparr>status := failed, error := Some m, endTime := Some now\<rparr>)) \<and>
               (\<forall>s. err = OtherValue s \<longrightarrow>
                  map_of (onRejected (call_taskId call) now err tasks) (call_taskId call) =
                    Some ((created_task env data)
                           \<lparr>status := failed, error := Some s, endTime := Some now\<rparr>))))"
proof -
  from post_research_created [OF assms(1)] obtain data where
    data: "safeParse req_body = Inr data" and
    t1: "map_of tasks1 (call_taskId call) = Some (created_task env data)"
    by blast
  from t1 have "map_of tasks1 (call_taskId call) \<noteq> None" by simp
  then have "map_of tasks (call_taskId call) \<noteq> None"
    unfolding assms(2) by (rule stored_run)
  then obtain t where t: "map_of tasks (call_taskId call) = Some t" by auto
  have general: "(\<exists>task. map_of (onResolved (call_taskId call) now result tasks) (call_taskId call) = Some task \<and>
            status task = completed \<and> endTime task = Some now \<and>
            results task = Some (learnings result)) \<and>
         (\<exists>task. map_of (onRejected (call_taskId call) now err tasks) (call_taskId call) = Some task \<and>
            status task = failed \<and> endTime task = Some now \<and>
            (\<forall>m. err = ErrorObject m \<longrightarrow> error task = Some m) \<and>
            (\<forall>s. err = OtherValue s \<longrightarrow> error task = Some s))"
    using t by (simp add: onResolved_def onRejected_def AList.update_conv')
  have exact: "map_of tasks (call_taskId call) = Some (created_task env data)"
    if "\<forall>ev\<in>set evs. \<not> touches (call_taskId call) ev"
    unfolding assms(2) using that t1 by (rule untouched_run) (simp add: created_task_def)
  have "\<exists>data. safeParse req_body = Inr data \<and>
               map_of (onResolved (call_taskId call) now result tasks) (call_taskId call) =
                 Some ((created_task env data)
                        \<lparr>status := completed, endTime := Some now,
                         results := Some (learnings result)\<rparr>) \<and>
               (\<forall>m. err = ErrorObject m \<longrightarrow>
                  map_of (onRejected (call_taskId call) now err tasks) (call_taskId call) =
                    Some ((created_task env data)
                           \<lparr>status := failed, error := Some m, endTime := Some now\<rparr>)) \<and>
               (\<forall>s. err = OtherValue s \<longrightarrow>
                  map_of (onRejected (call_taskId call) now err tasks) (call_taskId call) =
                    Some ((created_task env data)
                           \<lparr>status := failed, error := Some s, endTime := Some now\<rparr>))"
    if "\<forall>ev\<in>set evs. \<not> touches (call_taskId call) ev"
    using exact [OF that] data
    by (intro exI [of _ data]) (simp add: onResolved_def onRejected_def AList.update_conv')
  with general show ?thesis by blast
qed

text \<open>
  Claim C8. In every state the server reaches from the empty store: a task that
  POST /research creates is stored without a \<open>progress\<close> field, the progress callback leaves
  the store as it is, and the task GET /research/:taskId returns has no \<open>progress\<close>, also
  while it is running.
\<close>

theorem progress_updates_dropped:
  assumes "tasks = server_run maxConcurrent update [] evs"
  shows "(\<forall>env req_body resp tasks' call.
            post_research maxConcurrent env req_body tasks = (resp, tasks', Some call) \<longrightarrow>
            (\<exists>task. map_of tasks' (call_taskId call) = Some task \<and> progress task = None)) \<and>
         onProgress update taskId p tasks = tasks \<and>
         (\<forall>task. body (get_research taskId tasks) = TaskStatus task \<longrightarrow> progress task = None)"
proof -
  have inv: "progress_unset tasks"
    unfolding assms by (rule progress_unset_run) (simp add: progress_unset_def)
  have "\<exists>task. map_of tasks' (call_taskId call) = Some task \<and> progress task = None"
    if "post_research maxConcurrent env req_body tasks = (resp, tasks', Some call)"
    for env req_body resp tasks' call
    using post_research_stores [OF that] by blast
  moreover have "onProgress update taskId p tasks = tasks"
    using inv by (auto simp: onProgress_def dest: progress_unset_lookup split: option.splits)
  moreover have "progress task = None" if "body (get_research taskId tasks) = TaskStatus task"
    for task
    using that by (auto simp: get_research_def split: option.splits dest: progress_unset_lookup [OF inv])
  ultimately show ?thesis by blast
qed

lemma dogs_posted:
  "post_research (Fin 5) env2 dogs_body ([] :: (unit, unit) task_map) =
     (\<lparr>statusCode = 200,
       body = Started (ascii ''task-2-b'') running (ascii ''dogs'') (Fin 3) (Fin 3)\<rparr>,
      [(ascii ''task-2-b'', dogs_task)], Some dogs_call)"
proof -
  have ok: "safeParse dogs_body =
      Inr \<lparr>rq_query = ascii ''dogs'', rq_depth = Fin 3, rq_breadth = Fin 3\<rparr>"
    by (simp add: dogs_body_def safeParse_def get_prop_def ascii_def query_schema_def
        level_schema_def int_1_5_schema_def js_gt_def)
  show ?thesis
    by (simp add: post_research_def ok runningTasks_def js_ge_def env2_def dogs_task_def
        dogs_call_def ascii_def Let_def)
qed

text \<open>
  Witness for C3: the task of \<open>{query: "dogs"}\<close> on an empty store, then a progress report
  and the POST of another task, then a result with one learning, or an \<open>Error\<close> with the
  message \<open>boom\<close>.
\<close>

theorem run_outcome_stored_witness:
  "post_research (Fin 5) env2 dogs_body ([] :: (unit, unit) task_map) =
     (\<lparr>statusCode = 200,
       body = Started (ascii ''task-2-b'') running (ascii ''dogs'') (Fin 3) (Fin 3)\<rparr>,
      [(ascii ''task-2-b'', dogs_task)], Some dogs_call) \<and>
   server_run (Fin 5) keep_manager [(ascii ''task-2-b'', dogs_task)]
       [ProgressReported (ascii ''task-2-b'') progress1, PostResearch env3 cats_body] =
     [(ascii ''task-2-b'', dogs_task), (ascii ''task-3-c'', cats_task)] \<and>
   map_of (onResolved (ascii ''task-2-b'') 9 \<lparr>learnings = [ascii ''L1''], sources = []\<rparr>
       [(ascii ''task-2-b'', dogs_task), (ascii ''task-3-c'', cats_task)])
     (ascii ''task-2-b'') =
     Some (dogs_task\<lparr>status := completed, endTime := Some 9, results := Some [ascii ''L1'']\<rparr>) \<and>
   map_of (onRejected (ascii ''task-2-b'') 9 (ErrorObject (ascii ''boom''))
       [(ascii ''task-2-b'', dogs_task), (ascii ''task-3-c'', cats_task)])
     (ascii ''task-2-b'') =
     Some (dogs_task\<lparr>status := failed, error := Some (ascii ''boom''), endTime := Some 9\<rparr>)"
proof -
  have run: "server_run (Fin 5) keep_manager [(ascii ''task-2-b'', dogs_task)]
      [ProgressReported (ascii ''task-2-b'') progress1, PostResearch env3 cats_body] =
      [(ascii ''task-2-b'', dogs_task), (ascii ''task-3-c'', cats_task)]"
    by code_simp
  have untouched: "\<forall>ev\<in>set [ProgressReported (ascii ''task-2-b'') progress1,
      PostResearch env3 cats_body]. \<not> touches (call_taskId dogs_call) ev"
    by (simp add: dogs_call_def env3_def ascii_def)
  have data: "safeParse dogs_body =
      Inr \<lparr>rq_query = ascii ''dogs'', rq_depth = Fin 3, rq_breadth = Fin 3\<rparr>"
    by code_simp
  have created: "created_task env2 \<lparr>rq_query = ascii ''dogs'', rq_depth = Fin 3, rq_breadth = Fin 3\<rparr> =
      dogs_task"
    by (simp add: created_task_def env2_def dogs_task_def ascii_def)
  show ?thesis
    using dogs_posted run untouched data created
      run_outcome_stored [OF dogs_posted run [symmetric], where now = 9
        and result = "\<lparr>learnings = [ascii ''L1''], sources = []\<rparr>"
        and err = "ErrorObject (ascii ''boom'')"]
    by (simp add: dogs_call_def)
qed

text \<open>
  Witness for C8: after the POST of \<open>{query: "dogs"}\<close> the task is running, a progress report
  changes nothing and the status request shows the task without \<open>progress\<close>.
\<close>

theorem progress_updates_dropped_witness:
  "server_run (Fin 5) keep_manager [] [PostResearch env2 dogs_body] =
     [(ascii ''task-2-b'', dogs_task)] \<and>
   status dogs_task = running \<and>
   onProgress keep_manager (ascii ''task-2-b'') progress1 [(ascii ''task-2-b'', dogs_task)] =
     [(ascii ''task-2-b'', dogs_task)] \<and>
   get_research (ascii ''task-2-b'') [(ascii ''task-2-b'', dogs_task)] =
     \<lparr>statusCode = 200, body = TaskStatus dogs_task\<rparr> \<and>
   progress dogs_task = None"
proof -
  have run: "server_run (Fin 5) keep_manager [] [PostResearch env2 dogs_body] =
      [(ascii ''task-2-b'', dogs_task)]"
    by (simp add: server_run_def dogs_posted)
  have shown: "get_research (ascii ''task-2-b'') [(ascii ''task-2-b'', dogs_task)] =
      \<lparr>statusCode = 200, body = TaskStatus dogs_task\<rparr>"
    by (simp add: get_research_def dogs_task_def)
  show ?thesis
    using run shown
      progress_updates_dropped [OF run [symmetric], of "ascii ''task-2-b''" progress1]
    by (simp add: dogs_task_def)
qed

section \<open>GET /research\<close>









section \<open>The research core: results\<close>

lemma dedupe_snoc: "dedupe (xs @ [x]) = (if x \<in> set (dedupe xs) then dedupe xs else dedupe xs @ [x])"
  by (simp add: dedupe_def add_unique_def)

lemma set_dedupe [simp]: "set (dedupe xs) = set xs"
  by (induction xs rule: rev_induct) (auto simp: dedupe_snoc, simp add: dedupe_def)

lemma distinct_dedupe [simp]: "distinct (dedupe xs)"
  by (induction xs rule: rev_induct) (auto simp: dedupe_snoc, simp add: dedupe_def)

lemma dedupe_Nil [simp]: "dedupe [] = []"
  by (simp add: dedupe_def)

lemma dedupe_append_prefix: "\<exists>rest. dedupe (us @ vs) = dedupe us @ rest"
proof (induction vs rule: rev_induct)
  case Nil
  then show ?case by simp
next
  case (snoc v vs)
  then obtain rest where "dedupe (us @ vs) = dedupe us @ rest" by blast
  then show ?case
    using dedupe_snoc [of "us @ vs" v] by auto
qed

lemma dedupe_first_seen:
  assumes "x \<notin> set us"
  shows "\<exists>rest. dedupe (us @ x # vs) = dedupe us @ x # rest"
proof -
  have "dedupe (us @ [x]) = dedupe us @ [x]"
    using assms by (simp add: dedupe_snoc)
  moreover obtain rest where "dedupe ((us @ [x]) @ vs) = dedupe (us @ [x]) @ rest"
    using dedupe_append_prefix by blast
  ultimately show ?thesis by auto
qed


lemma set_foldl_add_unique: "set (foldl add_unique seen xs) = set seen \<union> set xs"
  by (induction xs arbitrary: seen) (auto simp: add_unique_def)

lemma same_seen_refl [simp]: "same_seen xs xs"
  by (simp add: same_seen_def)

lemma same_seen_append:
  "same_seen xs xs' \<Longrightarrow> same_seen ys ys' \<Longrightarrow> same_seen (xs @ ys) (xs' @ ys')"
  by (simp add: same_seen_def)

lemma same_seen_concat:
  "(\<And>x. x \<in> set xs \<Longrightarrow> same_seen (g x) (h x)) \<Longrightarrow>
     same_seen (concat (map g xs)) (concat (map h xs))"
  by (induction xs) (simp_all add: same_seen_append)

lemma same_seen_dedupe: "same_seen (dedupe ys) ys"
proof (induction ys rule: rev_induct)
  case Nil
  then show ?case by simp
next
  case (snoc y ys)
  show ?case
  proof (cases "y \<in> set ys")
    case True
    then have "foldl add_unique seen (ys @ [y]) = foldl add_unique seen ys" for seen
      by (simp add: add_unique_def set_foldl_add_unique)
    with snoc True show ?thesis
      by (simp add: same_seen_def dedupe_snoc)
  next
    case False
    with snoc show ?thesis
      by (simp add: same_seen_def dedupe_snoc)
  qed
qed

lemma same_seen_dedupe_eq: "same_seen xs ys \<Longrightarrow> dedupe xs = dedupe ys"
  by (simp add: same_seen_def dedupe_def)

lemma concat_map_concat_map:
  "concat (map g (concat (map F xs))) = concat (map (\<lambda>x. concat (map g (F x))) xs)"
  by (induction xs) simp_all

lemma explore_merge_contributions:
  assumes proj: "\<And>rs. proj (merge rs) = dedupe (concat (map proj rs))"
  shows "proj (fst (explore caps f)) = dedupe (concat (map proj (contributions caps f)))"
proof (induction caps f rule: explore.induct)
  case (1 caps f)
  show ?case
  proof (cases "depthRemaining f = 0")
    case True
    then show ?thesis
      by (simp add: explore.simps [of caps f] contributions.simps [of caps f] proj)
  next
    case False
    let ?acc = "\<lparr>learnings = accumulatedLearnings f, sources = accumulatedSources f\<rparr>"
    let ?own = "\<lambda>sq. \<lparr>learnings = finding_learnings (fst (run_unit caps sq)),
                        sources = snd (run_unit caps sq)\<rparr>"
    let ?kids = "\<lambda>sq. child_frames f (fst (run_unit caps sq)) (snd (run_unit caps sq))"
    have e: "fst (explore caps f) =
        merge (?acc # concat (map (\<lambda>sq. ?own sq # map (\<lambda>c. fst (explore caps c)) (?kids sq))
                               (planned caps f)))"
      using False by (simp add: explore.simps [of caps f] Let_def o_def)
    have c: "contributions caps f =
        ?acc # concat (map (\<lambda>sq. ?own sq # concat (map (contributions caps) (?kids sq)))
                         (planned caps f))"
      using False by (simp add: contributions.simps [of caps f] Let_def)
    have kid: "same_seen (proj (fst (explore caps c))) (concat (map proj (contributions caps c)))"
      if "sq \<in> set (planned caps f)" and "c \<in> set (?kids sq)" for sq c
    proof -
      have "proj (fst (explore caps c)) = dedupe (concat (map proj (contributions caps c)))"
        using False that by (intro "1.IH") auto
      then show ?thesis by (simp add: same_seen_dedupe)
    qed
    have "same_seen
        (concat (map proj (?acc # concat (map (\<lambda>sq. ?own sq # map (\<lambda>c. fst (explore caps c)) (?kids sq))
                               (planned caps f)))))
        (concat (map proj (?acc # concat (map (\<lambda>sq. ?own sq # concat (map (contributions caps) (?kids sq)))
                         (planned caps f)))))"
    proof -
      have l: "concat (map proj (concat (map (\<lambda>sq. ?own sq # map (\<lambda>c. fst (explore caps c)) (?kids sq))
                               (planned caps f)))) =
          concat (map (\<lambda>sq. proj (?own sq) @ concat (map (\<lambda>c. proj (fst (explore caps c))) (?kids sq)))
                    (planned caps f))"
        by (simp add: concat_map_concat_map o_def)
      have r: "concat (map proj (concat (map (\<lambda>sq. ?own sq # concat (map (contributions caps) (?kids sq)))
                         (planned caps f)))) =
          concat (map (\<lambda>sq. proj (?own sq) @
                          concat (map (\<lambda>c. concat (map proj (contributions caps c))) (?kids sq)))
                    (planned caps f))"
        by (simp add: concat_map_concat_map o_def)
      show ?thesis
        unfolding list.map concat.simps l r
        by (intro same_seen_append same_seen_refl same_seen_concat kid)
    qed
    then show ?thesis
      unfolding e c proj by (rule same_seen_dedupe_eq)
  qed
qed

lemma explore_contributions: "fst (explore caps f) = merge (contributions caps f)"
proof -
  have "learnings (fst (explore caps f)) = learnings (merge (contributions caps f))"
    using explore_merge_contributions [of learnings caps f] by (simp add: merge_def)
  moreover have "sources (fst (explore caps f)) = sources (merge (contributions caps f))"
    using explore_merge_contributions [of sources caps f] by (simp add: merge_def)
  ultimately show ?thesis by simp
qed

text \<open>
  Claim C5. The result of every run that resolves has no two equal learnings and no two
  equal sources. It holds exactly the learnings and the sources that the frames of the run
  contribute, and first-seen order is preserved: a learning first contributed after the
  learnings \<open>us\<close> stands in the result right after the entries of \<open>us\<close>.
\<close>

theorem result_deduplicated:
  assumes "run caps query_text maxDepth maxBreadth = Inr r"
  shows "distinct (learnings r) \<and> distinct (sources r) \<and>
         set (learnings r) =
           set (concat (map learnings (contributions caps
                  \<lparr>topic = query_text, depthRemaining = nat maxDepth,
                   breadthRemaining = nat maxBreadth, accumulatedLearnings = [],
                   accumulatedSources = []\<rparr>))) \<and>
         set (sources r) =
           set (concat (map sources (contributions caps
                  \<lparr>topic = query_text, depthRemaining = nat maxDepth,
                   breadthRemaining = nat maxBreadth, accumulatedLearnings = [],
                   accumulatedSources = []\<rparr>))) \<and>
         (\<forall>us x vs.
            concat (map learnings (contributions caps
              \<lparr>topic = query_text, depthRemaining = nat maxDepth,
               breadthRemaining = nat maxBreadth, accumulatedLearnings = [],
               accumulatedSources = []\<rparr>)) = us @ x # vs \<and> x \<notin> set us \<longrightarrow>
            (\<exists>pre rest. learnings r = pre @ x # rest \<and> set pre = set us))"
proof -
  define root where "root = \<lparr>topic = query_text, depthRemaining = nat maxDepth,
      breadthRemaining = nat maxBreadth, accumulatedLearnings = [], accumulatedSources = []\<rparr>"
  from assms have r: "r = merge (contributions caps root)"
    by (auto simp: run_def root_def explore_contributions split: if_splits)
  have "\<exists>pre rest. learnings r = pre @ x # rest \<and> set pre = set us"
    if "concat (map learnings (contributions caps root)) = us @ x # vs \<and> x \<notin> set us" for us x vs
  proof -
    from that have "x \<notin> set us" by simp
    then obtain rest where "dedupe (us @ x # vs) = dedupe us @ x # rest"
      using dedupe_first_seen [of x us vs] by blast
    with that have "learnings r = dedupe us @ x # rest"
      by (simp add: r merge_def)
    then show ?thesis by (intro exI [of _ "dedupe us"] exI [of _ rest]) simp
  qed
  then show ?thesis
    unfolding root_def [symmetric] by (simp add: r merge_def)
qed

lemma merge_cong:
  "concat (map learnings rs) = concat (map learnings rs') \<Longrightarrow>
   concat (map sources rs) = concat (map sources rs') \<Longrightarrow> merge rs = merge rs'"
  by (simp add: merge_def)

lemma concat_map_filter_empty:
  assumes "\<And>x. x \<in> set xs \<Longrightarrow> \<not> P x \<Longrightarrow> concat (map g (U x)) = []"
  shows "concat (map g (concat (map U xs))) = concat (map g (concat (map U (filter P xs))))"
  using assms by (induction xs) auto

lemma unit_fails_empty:
  assumes "unit_fails caps sq"
  shows "run_unit caps sq = (\<lparr>finding_learnings = [], followUpQuestions = []\<rparr>, [])"
  using assms by (auto simp: unit_fails_def run_unit_def split: sum.splits)

lemma child_frames_no_follow_up [simp]:
  "child_frames f \<lparr>finding_learnings = ls, followUpQuestions = []\<rparr> srcs = []"
  by (simp add: child_frames_def)

lemma merge_empty:
  assumes "\<forall>r\<in>set rs. learnings r = [] \<and> sources r = []"
  shows "merge rs = \<lparr>learnings = [], sources = []\<rparr>"
proof -
  have a: "concat (map learnings rs) = []" and b: "concat (map sources rs) = []"
    using assms by auto
  show ?thesis by (simp only: merge_def a b dedupe_Nil)
qed

text \<open>
  Claim C6. A run with depth and breadth in 1..5 always returns a result, the merge of
  what its frames contribute, whatever the Adapter, the Planner and the Extractor do. A
  unit whose Adapter or Extractor fails contributes nothing and spawns nothing, and the
  result of its frame is the merge over the units that did not fail, so a failure changes
  nothing for its siblings. A frame whose Planner fails returns what it had accumulated.
  When every call of the Adapter fails, the result is the empty \<open>ResearchResult\<close>.
\<close>

theorem failures_never_abort:
  assumes "1 \<le> maxDepth" and "maxDepth \<le> 5" and "1 \<le> maxBreadth" and "maxBreadth \<le> 5"
  shows "run caps query_text maxDepth maxBreadth =
           Inr (merge (contributions caps
                  \<lparr>topic = query_text, depthRemaining = nat maxDepth,
                   breadthRemaining = nat maxBreadth, accumulatedLearnings = [],
                   accumulatedSources = []\<rparr>)) \<and>
         (\<forall>f sq. unit_fails caps sq \<longrightarrow>
            run_unit caps sq = (\<lparr>finding_learnings = [], followUpQuestions = []\<rparr>, []) \<and>
            unit_results caps f sq = [\<lparr>learnings = [], sources = []\<rparr>]) \<and>
         (\<forall>f. depthRemaining f \<noteq> 0 \<longrightarrow>
            fst (explore caps f) =
              merge (\<lparr>learnings = accumulatedLearnings f, sources = accumulatedSources f\<rparr> #
                     concat (map (unit_results caps f)
                               (filter (\<lambda>sq. \<not> unit_fails caps sq) (planned caps f))))) \<and>
         (\<forall>f failure.
            plan caps (topic f) (accumulatedLearnings f) (breadthRemaining f) = Inl failure \<longrightarrow>
            explore caps f =
              (merge [\<lparr>learnings = accumulatedLearnings f, sources = accumulatedSources f\<rparr>], [f])) \<and>
         ((\<forall>t. \<exists>failure. fetch caps t = Inl failure) \<longrightarrow>
            run caps query_text maxDepth maxBreadth = Inr \<lparr>learnings = [], sources = []\<rparr>)"
proof (intro conjI allI impI)
  show "run caps query_text maxDepth maxBreadth =
      Inr (merge (contributions caps
             \<lparr>topic = query_text, depthRemaining = nat maxDepth,
              breadthRemaining = nat maxBreadth, accumulatedLearnings = [],
              accumulatedSources = []\<rparr>))"
    using assms by (simp add: run_def explore_contributions)
next
  fix f :: ResearchFrame and sq
  assume "unit_fails caps sq"
  then show "run_unit caps sq = (\<lparr>finding_learnings = [], followUpQuestions = []\<rparr>, [])"
    by (rule unit_fails_empty)
  then show "unit_results caps f sq = [\<lparr>learnings = [], sources = []\<rparr>]"
    by (simp add: unit_results_def)
next
  fix f :: ResearchFrame
  assume deep: "depthRemaining f \<noteq> 0"
  have "fst (explore caps f) =
      merge (\<lparr>learnings = accumulatedLearnings f, sources = accumulatedSources f\<rparr> #
             concat (map (unit_results caps f) (planned caps f)))"
    using deep by (simp add: explore.simps [of caps f] Let_def o_def unit_results_def [abs_def])
  also have "\<dots> =
      merge (\<lparr>learnings = accumulatedLearnings f, sources = accumulatedSources f\<rparr> #
             concat (map (unit_results caps f)
                       (filter (\<lambda>sq. \<not> unit_fails caps sq) (planned caps f))))"
  proof (rule merge_cong)
    have "concat (map g (concat (map (unit_results caps f) (planned caps f)))) =
        concat (map g (concat (map (unit_results caps f)
                  (filter (\<lambda>sq. \<not> unit_fails caps sq) (planned caps f)))))"
      if "g \<lparr>learnings = [], sources = []\<rparr> = []" for g :: "ResearchResult \<Rightarrow> jsstring list"
    proof (rule concat_map_filter_empty)
      fix sq
      assume "\<not> \<not> unit_fails caps sq"
      then have "unit_results caps f sq = [\<lparr>learnings = [], sources = []\<rparr>]"
        by (simp add: unit_results_def unit_fails_empty)
      then show "concat (map g (unit_results caps f sq)) = []"
        by (simp add: that)
    qed
    from this [of learnings] this [of sources]
    show "concat (map learnings
            (\<lparr>learnings = accumulatedLearnings f, sources = accumulatedSources f\<rparr> #
             concat (map (unit_results caps f) (planned caps f)))) =
        concat (map learnings
            (\<lparr>learnings = accumulatedLearnings f, sources = accumulatedSources f\<rparr> #
             concat (map (unit_results caps f)
                       (filter (\<lambda>sq. \<not> unit_fails caps sq) (planned caps f)))))"
      and "concat (map sources
            (\<lparr>learnings = accumulatedLearnings f, sources = accumulatedSources f\<rparr> #
             concat (map (unit_results caps f) (planned caps f)))) =
        concat (map sources
            (\<lparr>learnings = accumulatedLearnings f, sources = accumulatedSources f\<rparr> #
             concat (map (unit_results caps f)
                       (filter (\<lambda>sq. \<not> unit_fails caps sq) (planned caps f)))))"
      by simp_all
  qed
  finally show "fst (explore caps f) =
      merge (\<lparr>learnings = accumulatedLearnings f, sources = accumulatedSources f\<rparr> #
             concat (map (unit_results caps f)
                       (filter (\<lambda>sq. \<not> unit_fails caps sq) (planned caps f))))" .
next
  fix f :: ResearchFrame and failure
  assume "plan caps (topic f) (accumulatedLearnings f) (breadthRemaining f) = Inl failure"
  then have "planned caps f = []"
    by (simp add: planned_def)
  then show "explore caps f =
      (merge [\<lparr>learnings = accumulatedLearnings f, sources = accumulatedSources f\<rparr>], [f])"
    by (simp add: explore.simps [of caps f])
next
  assume fails: "\<forall>t. \<exists>failure. fetch caps t = Inl failure"
  have unit: "run_unit caps sq = (\<lparr>finding_learnings = [], followUpQuestions = []\<rparr>, [])" for sq
    using fails [rule_format, of "sq_text sq"] by (auto simp: run_unit_def)
  have "fst (explore caps f) = \<lparr>learnings = [], sources = []\<rparr>"
    if "accumulatedLearnings f = []" and "accumulatedSources f = []" for f
  proof (cases "depthRemaining f = 0")
    case True
    then have "fst (explore caps f) = merge [\<lparr>learnings = [], sources = []\<rparr>]"
      by (simp add: explore.simps [of caps f] that)
    also have "\<dots> = \<lparr>learnings = [], sources = []\<rparr>"
      by (rule merge_empty) auto
    finally show ?thesis .
  next
    case False
    then have "fst (explore caps f) =
        merge (\<lparr>learnings = [], sources = []\<rparr> #
               map (\<lambda>sq. \<lparr>learnings = [], sources = []\<rparr>) (planned caps f))"
      by (simp add: explore.simps [of caps f] Let_def unit that o_def)
    also have "\<dots> = \<lparr>learnings = [], sources = []\<rparr>"
      by (rule merge_empty) auto
    finally show ?thesis .
  qed
  then show "run caps query_text maxDepth maxBreadth = Inr \<lparr>learnings = [], sources = []\<rparr>"
    using assms by (simp add: run_def)
qed

lemma run_unit_discard:
  "run_unit (discard_follow_ups caps) sq =
     (fst (run_unit caps sq)\<lparr>followUpQuestions := []\<rparr>, snd (run_unit caps sq))"
  by (auto simp: run_unit_def discard_follow_ups_def split: sum.splits)

lemma planned_discard [simp]: "planned (discard_follow_ups caps) f = planned caps f"
  by (simp add: planned_def discard_follow_ups_def split: sum.splits)

lemma child_frames_depth_1 [simp]: "depthRemaining f = 1 \<Longrightarrow> child_frames f finding srcs = []"
  by (simp add: child_frames_def)

text \<open>
  Claim C7. In a frame with \<open>depthRemaining = 1\<close> (the root of a run with \<open>maxDepth = 1\<close>)
  the only frame entered is the frame itself, no unit has a child frame, and the follow-up
  questions are discarded: with an Extractor that returns none the exploration and the run
  give the same.
\<close>

theorem depth_one_no_recursion:
  assumes "depthRemaining f = 1"
  shows "snd (explore caps f) = [f] \<and>
         (\<forall>sq\<in>set (planned caps f).
            child_frames f (fst (run_unit caps sq)) (snd (run_unit caps sq)) = []) \<and>
         explore (discard_follow_ups caps) f = explore caps f \<and>
         run (discard_follow_ups caps) (topic f) 1 (int (breadthRemaining f)) =
           run caps (topic f) 1 (int (breadthRemaining f))"
proof -
  have one: "explore c f =
      (merge (\<lparr>learnings = accumulatedLearnings f, sources = accumulatedSources f\<rparr> #
              map (\<lambda>sq. \<lparr>learnings = finding_learnings (fst (run_unit c sq)),
                          sources = snd (run_unit c sq)\<rparr>) (planned c f)),
       [f])"
    if "depthRemaining f = 1" for c f
    by (subst explore.simps) (simp add: that Let_def concat_map_singleton o_def)
  have same: "explore (discard_follow_ups caps) f = explore caps f"
    if "depthRemaining f = 1" for f
    by (simp add: one that run_unit_discard)
  have root: "run c (topic f) 1 (int (breadthRemaining f)) =
      (if breadthRemaining f < 1 \<or> 5 < breadthRemaining f then Inl ConfigurationError
       else Inr (fst (explore c
              \<lparr>topic = topic f, depthRemaining = 1, breadthRemaining = breadthRemaining f,
               accumulatedLearnings = [], accumulatedSources = []\<rparr>)))" for c
    by (simp add: run_def)
  show ?thesis
    using assms by (simp add: one root run_unit_discard)
qed

text \<open>
  Witness for C5: the branches A and B contribute L, M and M, K, L; the run returns L, M, K.
\<close>

theorem result_deduplicated_witness:
  "concat (map learnings (contributions overlap_caps (root_frame 2 2))) =
     [ascii ''L'', ascii ''M'', ascii ''M'', ascii ''K'', ascii ''L''] \<and>
   run overlap_caps (ascii ''root'') 2 2 =
     Inr \<lparr>learnings = [ascii ''L'', ascii ''M'', ascii ''K''], sources = [ascii ''s1'']\<rparr>"
proof -
  have raw: "concat (map learnings (contributions overlap_caps (root_frame 2 2))) =
      [ascii ''L'', ascii ''M'', ascii ''M'', ascii ''K'', ascii ''L'']"
    by code_simp
  have run: "run overlap_caps (ascii ''root'') 2 2 =
      Inr \<lparr>learnings = [ascii ''L'', ascii ''M'', ascii ''K''], sources = [ascii ''s1'']\<rparr>"
    by code_simp
  show ?thesis
    using raw run result_deduplicated [OF run] by simp
qed

text \<open>
  Witness for C6: at depth 2 the Adapter fails on B, the Extractor fails on C and the
  Planner fails on the follow-up question of A; the run returns the learning of A. With
  an Adapter that always fails it returns the empty result.
\<close>

theorem failures_never_abort_witness:
  "unit_fails flaky_caps \<lparr>sq_text = ascii ''B'', researchGoal = []\<rparr> \<and>
   unit_fails flaky_caps \<lparr>sq_text = ascii ''C'', researchGoal = []\<rparr> \<and>
   plan flaky_caps (ascii ''F'') [ascii ''A''] 1 = Inl PlanningFailure \<and>
   run flaky_caps (ascii ''root'') 2 3 =
     Inr \<lparr>learnings = [ascii ''A''], sources = [ascii ''s1'']\<rparr> \<and>
   run failing_caps (ascii ''root'') 2 3 = Inr \<lparr>learnings = [], sources = []\<rparr>"
proof -
  have failures: "unit_fails flaky_caps \<lparr>sq_text = ascii ''B'', researchGoal = []\<rparr> \<and>
      unit_fails flaky_caps \<lparr>sq_text = ascii ''C'', researchGoal = []\<rparr> \<and>
      plan flaky_caps (ascii ''F'') [ascii ''A''] 1 = Inl PlanningFailure"
    by code_simp
  have run: "run flaky_caps (ascii ''root'') 2 3 =
      Inr \<lparr>learnings = [ascii ''A''], sources = [ascii ''s1'']\<rparr>"
    by code_simp
  have fails: "\<forall>t. \<exists>failure. fetch failing_caps t = Inl failure"
    by (simp add: failing_caps_def)
  have cfg: "(1::int) \<le> 2" "(2::int) \<le> 5" "(1::int) \<le> 3" "(3::int) \<le> 5"
    by simp_all
  from failures_never_abort [OF cfg, of failing_caps "ascii ''root''"] fails
  have empty: "run failing_caps (ascii ''root'') 2 3 = Inr \<lparr>learnings = [], sources = []\<rparr>"
    by blast
  from failures run empty show ?thesis
    by (simp only: simp_thms)
qed

text \<open>
  Witness for C7: at depth 1 the unit of A has the follow-up question F, the root is the
  only frame entered, and the run returns the same with and without follow-up questions.
\<close>

theorem depth_one_no_recursion_witness:
  "depthRemaining (root_frame 1 2) = 1 \<and>
   followUpQuestions (fst (run_unit stub_caps \<lparr>sq_text = ascii ''A'', researchGoal = []\<rparr>)) =
     [ascii ''F''] \<and>
   snd (explore stub_caps (root_frame 1 2)) = [root_frame 1 2] \<and>
   run stub_caps (ascii ''root'') 1 2 =
     Inr \<lparr>learnings = [ascii ''L''], sources = [ascii ''s1'']\<rparr> \<and>
   run (discard_follow_ups stub_caps) (ascii ''root'') 1 2 =
     Inr \<lparr>learnings = [ascii ''L''], sources = [ascii ''s1'']\<rparr>"
proof -
  have d: "depthRemaining (root_frame 1 2) = 1"
    by (simp add: root_frame_def)
  have follow: "followUpQuestions (fst (run_unit stub_caps \<lparr>sq_text = ascii ''A'', researchGoal = []\<rparr>)) =
      [ascii ''F'']"
    by code_simp
  have run: "run stub_caps (ascii ''root'') 1 2 =
      Inr \<lparr>learnings = [ascii ''L''], sources = [ascii ''s1'']\<rparr>"
    by code_simp
  show ?thesis
    using d follow run depth_one_no_recursion [OF d, of stub_caps]
    by (simp add: root_frame_def)
qed

section \<open>The research core: progress counters\<close>

lemma filter_is_unit_FetchExtract [simp]: "filter is_unit (map (FetchExtract f) sqs) = map (FetchExtract f) sqs"
  by (induction sqs) auto

lemma filter_is_unit_PlanFrame [simp]: "filter is_unit (map PlanFrame fs) = []"
  by (induction fs) auto
















end
